theory Spec2Isabelle
  imports Main
begin

section \<open>Python text primitives\<close>

text \<open>
  A Python \<open>str\<close> is modelled as a \<open>string\<close> (a list of 8-bit characters); the
  inventory text is taken to be ASCII, so a character above 127 is neither whitespace
  nor a digit. Python integers are unbounded and are modelled as \<open>int\<close>; the
  interpreter's configurable limit on the number of digits \<open>int()\<close> converts is not
  modelled.
\<close>

definition nl :: char where
  "nl = char_of (10 :: nat)"

definition py_isspace :: "char \<Rightarrow> bool" where
  \<comment> \<open>\<open>str.isspace\<close>, the characters \<open>str.strip()\<close> removes and the regex class \<open>\s\<close>\<close>
  "py_isspace c = (of_char c \<in> {9, 10, 11, 12, 13, 28, 29, 30, 31, 32 :: nat})"

definition int_isspace :: "char \<Rightarrow> bool" where
  \<comment> \<open>the whitespace \<open>int()\<close> skips around the number in an ASCII string\<close>
  "int_isspace c = (of_char c \<in> {9, 10, 11, 12, 13, 32 :: nat})"

definition py_isdigit :: "char \<Rightarrow> bool" where
  \<comment> \<open>the regex class \<open>\d\<close> and the digits of \<open>int()\<close>\<close>
  "py_isdigit c = (48 \<le> (of_char c :: nat) \<and> (of_char c :: nat) \<le> 57)"

definition strip :: "string \<Rightarrow> string" where
  "strip s = rev (dropWhile py_isspace (rev (dropWhile py_isspace s)))"

definition startswith :: "string \<Rightarrow> string \<Rightarrow> bool" where
  "startswith s p = (take (length p) s = p)"

fun py_join :: "string \<Rightarrow> string list \<Rightarrow> string" where
  "py_join sep [] = []"
| "py_join sep [x] = x"
| "py_join sep (x # y # r) = x @ sep @ py_join sep (y # r)"

text \<open>
  \<open>int(s)\<close> in base 10: whitespace around, an optional sign, then decimal digits in
  which single underscores may separate digits. \<open>None\<close> stands for \<open>ValueError\<close>.
\<close>

fun digit_group :: "string \<Rightarrow> bool" where
  "digit_group [] = False"
| "digit_group [c] = py_isdigit c"
| "digit_group (c # d # r) =
     (py_isdigit c \<and> (if d = CHR ''_'' then digit_group r else digit_group (d # r)))"

definition digits_value :: "string \<Rightarrow> int" where
  "digits_value ds =
     foldl (\<lambda>a c. 10 * a + int (of_char c - 48)) 0 (filter py_isdigit ds)"

definition py_int :: "string \<Rightarrow> int option" where
  "py_int s =
     (let t = rev (dropWhile int_isspace (rev (dropWhile int_isspace s)));
          neg = (t \<noteq> [] \<and> hd t = CHR ''-'');
          ds = (if t \<noteq> [] \<and> (hd t = CHR ''-'' \<or> hd t = CHR ''+'') then tl t else t)
      in if digit_group ds
         then Some (if neg then - digits_value ds else digits_value ds)
         else None)"

section \<open>Patch records and Patch Sets\<close>

text \<open>
  A patch record is the dictionary \<open>{"description": ..., "extra_lines": ...}\<close>; the
  description is \<open>None\<close> when the full-inventory decoder saw no description line.
  A Patch Set is a Python \<open>dict\<close>, which keeps insertion order: an association list
  in which assigning to an existing key replaces the value in place and assigning to a
  new key appends.
\<close>

record patch =
  description :: "string option"
  extra_lines :: string

type_synonym patch_set = "(int \<times> patch) list"

fun dict_set :: "('k \<times> 'v) list \<Rightarrow> 'k \<Rightarrow> 'v \<Rightarrow> ('k \<times> 'v) list" where
  "dict_set [] k v = [(k, v)]"
| "dict_set ((k', v') # r) k v =
     (if k' = k then (k, v) # r else (k', v') # dict_set r k v)"

definition dict_keys :: "('k \<times> 'v) list \<Rightarrow> 'k list" where
  "dict_keys d = map fst d"

section \<open>Output and termination\<close>

text \<open>
  Every \<open>print\<close> of the program is one message, carrying the values the format
  string interpolates. A run either returns a value, leaves through \<open>sys.exit\<close> or
  dies of an uncaught exception; the messages printed so far are kept in each case.
\<close>

datatype msg =
    ErrInvalidPatchId string string
      \<comment> \<open>\<open>error: invalid patch ID: '{num}' in {filename}\<close>\<close>
  | ErrNoLines string
      \<comment> \<open>\<open>error: no lines found in {filename}\<close>\<close>
  | ReadingLsinventoryFile string
      \<comment> \<open>\<open>Reading patches from 'opatch lsinventory' {filename}...\<close>\<close>
  | ReadingLspatchesFile string
      \<comment> \<open>\<open>Reading patches from 'opatch lspatches' {filename}...\<close>\<close>
  | NoPatchesFile string
      \<comment> \<open>\<open>No patches found in the file {src.path}\<close>\<close>
  | NoPatchesHome string
      \<comment> \<open>\<open>No patches found in the Oracle Home {src.path}\<close>\<close>
  | ErrNoDirectory string
      \<comment> \<open>\<open>error: the directory {oracle_home} does not exist\<close>\<close>
  | ErrNoPath string
      \<comment> \<open>\<open>error: the directory or file {opatch_path} does not exist\<close>\<close>
  | ErrNotExecutable string
      \<comment> \<open>\<open>error: {opatch_path} is not an executable file\<close>\<close>
  | ReadingLspatchesHome string
      \<comment> \<open>\<open>Reading patches from 'opatch lspatches' for ORACLE_HOME: {oracle_home}...\<close>\<close>
  | ReadingLsinventoryHome string
      \<comment> \<open>\<open>Reading patches from 'opatch lsinventory' for ORACLE_HOME: {oracle_home}...\<close>\<close>
  | RunningCommand "string list"
      \<comment> \<open>\<open>Running command: {' '.join(cmd)}\<close>\<close>
  | OutputSaved string
      \<comment> \<open>\<open>OPatch output saved to file: {source.output}\<close>\<close>
  | ErrCommandFailed "string list" string
      \<comment> \<open>\<open>error: command {cmd} failed with error: {e.stderr}\<close>\<close>
  | WarnReleaseUpdatesDiffer
      \<comment> \<open>\<open>\n ===> WARNING: Database Release Updates differ:\<close>\<close>
  | FirstSourceRU string
      \<comment> \<open>\<open>  - First source  => {ru1}\<close>\<close>
  | SecondSourceRU string
      \<comment> \<open>\<open>  - Second source => {ru2}\<close>\<close>
  | PlainRU string
      \<comment> \<open>\<open>\n{ru1}\<close>\<close>
  | ReleaseUpdateHeader
      \<comment> \<open>\<open>Database Release Update:\<close>\<close>
  | ReleaseUpdateFound string
      \<comment> \<open>\<open>  - {patches[num]['description']}\<close>\<close>
  | ReleaseUpdateNotFound
      \<comment> \<open>\<open>  - No Database Release Update found\<close>\<close>
  | SummaryHeader
      \<comment> \<open>\<open>\nSummary:\<close>\<close>
  | FirstSourceCount string nat
      \<comment> \<open>\<open>  - First source  => {sources1} contains {len(patches1)} patches\<close>\<close>
  | SecondSourceCount string nat
      \<comment> \<open>\<open>  - Second source => {sources2} contains {len(patches2)} patches\<close>\<close>
  | OnlyFirstHeader
      \<comment> \<open>\<open>\nPatches only in the first source:\<close>\<close>
  | NoPatchesOnlyFirst string
      \<comment> \<open>\<open>  No patches only in {sources1}\<close>\<close>
  | OnlySecondHeader
      \<comment> \<open>\<open>\nPatches only in the second source:\<close>\<close>
  | NoPatchesOnlySecond string
      \<comment> \<open>\<open>  No patches only in the {sources2}\<close>\<close>
  | PatchLine int "string option"
      \<comment> \<open>\<open> ==> {num}; {patch_data['description']}\<close>, an absent description prints as \<open>None\<close>\<close>
  | ExtraLinesFirst string
      \<comment> \<open>\<open>{patch_data['extra_lines']}\<close>\<close>
  | ExtraLinesSecond string
      \<comment> \<open>\<open>{patch_data['extra_lines']}\n\<close>\<close>
  | Blank
      \<comment> \<open>\<open>print()\<close>\<close>

datatype exc = AttributeError | KeyError | OSError

datatype stop = Exit int | Raised exc

type_synonym 'a io = "msg list \<times> (stop + 'a)"

definition bind_io :: "'a io \<Rightarrow> ('a \<Rightarrow> 'b io) \<Rightarrow> 'b io" where
  "bind_io m f =
     (case m of
        (out, Inl s) \<Rightarrow> (out, Inl s)
      | (out, Inr x) \<Rightarrow> (case f x of (out', r) \<Rightarrow> (out @ out', r)))"

section \<open>The patch-list decoder\<close>

text \<open>
  \<open>read_lspatches\<close>: the loop over the lines, with the dictionary built so far as
  the accumulator. \<open>line.split(';', 1)\<close> on a line that has a semicolon gives the text
  before the first semicolon and everything after it.
\<close>

fun lspatches_loop :: "patch_set \<Rightarrow> string list \<Rightarrow> string \<Rightarrow> patch_set io" where
  "lspatches_loop patches [] filename = ([], Inr patches)"
| "lspatches_loop patches (l # ls) filename =
     (let line = strip l in
      if line = [] \<or> CHR '';'' \<notin> set line then lspatches_loop patches ls filename
      else
        let num = takeWhile (\<lambda>c. c \<noteq> CHR '';'') line;
            desc = tl (dropWhile (\<lambda>c. c \<noteq> CHR '';'') line)
        in case py_int num of
             None \<Rightarrow> ([ErrInvalidPatchId num filename], Inl (Exit 1))
           | Some patch_id \<Rightarrow>
               lspatches_loop
                 (dict_set patches patch_id \<lparr>description = Some desc, extra_lines = []\<rparr>)
                 ls filename)"

definition read_lspatches :: "string list \<Rightarrow> string \<Rightarrow> patch_set io" where
  "read_lspatches lines filename = lspatches_loop [] lines filename"

section \<open>The full-inventory decoder\<close>

text \<open>
  The two regular expressions. In both, each repetition is followed by a character
  outside its class, so the greedy match is the only one; \<open>(.*)"\<close> takes the text up
  to the last double quote before a line break. \<open>re.search\<close> tries the start
  positions from the left; the header pattern is anchored at the start of the line.
\<close>

fun match_lit :: "string \<Rightarrow> string \<Rightarrow> string option" where
  "match_lit [] s = Some s"
| "match_lit (p # ps) [] = None"
| "match_lit (p # ps) (c # cs) = (if p = c then match_lit ps cs else None)"

definition spaces1 :: "string \<Rightarrow> string option" where
  \<comment> \<open>\<open>\s+\<close>\<close>
  "spaces1 s =
     (case s of [] \<Rightarrow> None
      | c # r \<Rightarrow> if py_isspace c then Some (dropWhile py_isspace r) else None)"

definition spaces0 :: "string \<Rightarrow> string option" where
  \<comment> \<open>\<open>\s*\<close>\<close>
  "spaces0 s = Some (dropWhile py_isspace s)"

definition patch_match :: "string \<Rightarrow> string option" where
  \<comment> \<open>group 1 of \<open>re.search(r"^Patch\s+(\d+)\s+:", line)\<close>\<close>
  "patch_match line =
     Option.bind (Option.bind (match_lit ''Patch'' line) spaces1) (\<lambda>r.
       let ds = takeWhile py_isdigit r in
       if ds = [] then None
       else Option.bind (Option.bind (spaces1 (dropWhile py_isdigit r)) (match_lit '':''))
              (\<lambda>_. Some ds))"

definition quoted :: "string \<Rightarrow> string option" where
  \<comment> \<open>\<open>(.*)"\<close>\<close>
  "quoted s =
     (let seg = takeWhile (\<lambda>c. c \<noteq> nl) s in
      if CHR 0x22 \<in> set seg
      then Some (rev (tl (dropWhile (\<lambda>c. c \<noteq> CHR 0x22) (rev seg))))
      else None)"

definition desc_match_here :: "string \<Rightarrow> string option" where
  "desc_match_here s =
     Option.bind (Option.bind (Option.bind (Option.bind (Option.bind (Option.bind (Option.bind
       (match_lit ''Patch'' s) spaces1) (match_lit ''description'')) spaces0)
       (match_lit '':'')) spaces0) (match_lit [CHR 0x22])) quoted"

fun desc_match :: "string \<Rightarrow> string option" where
  \<comment> \<open>group 1 of \<open>re.search(r'Patch\s+description\s*:\s*"(.*)"', line)\<close>\<close>
  "desc_match [] = None"
| "desc_match (c # cs) =
     (case desc_match_here (c # cs) of Some g \<Rightarrow> Some g | None \<Rightarrow> desc_match cs)"

text \<open>
  The loop state of \<open>read_lsinventory\<close>. \<open>if current_id:\<close> is Python truthiness:
  false for \<open>None\<close> and for the integer 0.
\<close>

record lsinv_state =
  patches :: patch_set
  current_id :: "int option"
  current_desc :: "string option"
  extra_buf :: "string list"
  is_capturing_extra :: bool

definition truthy_id :: "int option \<Rightarrow> bool" where
  "truthy_id i = (case i of None \<Rightarrow> False | Some n \<Rightarrow> n \<noteq> 0)"

definition lsinv_init :: lsinv_state where
  "lsinv_init =
     \<lparr>patches = [], current_id = None, current_desc = None, extra_buf = [],
      is_capturing_extra = False\<rparr>"

definition lsinventory_step :: "lsinv_state \<Rightarrow> string \<Rightarrow> lsinv_state" where
  "lsinventory_step s line =
     (case patch_match line of
        Some ds \<Rightarrow>
          \<lparr>patches =
             (case current_id s of
                None \<Rightarrow> patches s
              | Some k \<Rightarrow>
                  if k \<noteq> 0
                  then dict_set (patches s) k
                         \<lparr>description = current_desc s,
                          extra_lines = py_join [nl] (extra_buf s)\<rparr>
                  else patches s),
           current_id = Some (digits_value ds),
           current_desc = None,
           extra_buf = [],
           is_capturing_extra = False\<rparr>
      | None \<Rightarrow>
          (case desc_match line of
             Some d \<Rightarrow>
               if truthy_id (current_id s)
               then s\<lparr>current_desc := Some d, is_capturing_extra := True\<rparr>
               else s
           | None \<Rightarrow>
               if is_capturing_extra s \<and> truthy_id (current_id s)
               then (if strip line \<noteq> []
                     then s\<lparr>extra_buf := extra_buf s @ [line]\<rparr>
                     else s\<lparr>is_capturing_extra := False\<rparr>)
               else s))"

definition lsinventory_finish :: "lsinv_state \<Rightarrow> patch_set" where
  "lsinventory_finish s =
     (case current_id s of
        None \<Rightarrow> patches s
      | Some k \<Rightarrow>
          if k \<noteq> 0
          then dict_set (patches s) k
                 \<lparr>description = current_desc s, extra_lines = py_join [] (extra_buf s)\<rparr>
          else patches s)"

definition read_lsinventory :: "string list \<Rightarrow> patch_set" where
  "read_lsinventory lines = lsinventory_finish (foldl lsinventory_step lsinv_init lines)"

section \<open>Sources and the collaborators that supply their text\<close>

text \<open>
  \<open>OPatchArg\<close> is the named tuple of the program (its field \<open>output\<close> is
  \<open>out_file\<close> here). Files, the checks on the
  \<open>opatch\<close> executable and the subprocess are outside the program: they are the
  fields of an environment. \<open>read_file\<close> is \<open>open(filename)\<close> followed by
  \<open>f.read().splitlines()\<close>, \<open>None\<close> when that raises; the standard output of the
  subprocess is kept as its \<open>splitlines()\<close>, which is empty exactly when the output is.
\<close>

record OPatchArg =
  source :: string
  path :: string
  lspatches :: bool
  lsinventory :: bool
  out_file :: "string option"

datatype proc_result =
    ProcOut "string list"
  | ProcFailed string
  | ProcOSError

record env =
  read_file :: "string \<Rightarrow> string list option"
  os_isdir :: "string \<Rightarrow> bool"
  os_exists :: "string \<Rightarrow> bool"
  os_isfile :: "string \<Rightarrow> bool"
  os_access_x :: "string \<Rightarrow> bool"
  subprocess_run :: "string list \<Rightarrow> string \<Rightarrow> proc_result"
  write_file :: "string \<Rightarrow> bool"

definition say :: "msg list \<Rightarrow> unit io" where
  "say ms = (ms, Inr ())"

definition is_lsinventory :: "string list \<Rightarrow> bool" where
  "is_lsinventory lines =
     list_ex (\<lambda>line. startswith line ''Oracle Interim Patch Installer''
                   \<or> startswith line ''Interim patches'') lines"

definition read_patches :: "env \<Rightarrow> string \<Rightarrow> patch_set io" where
  "read_patches e filename =
     (case read_file e filename of
        None \<Rightarrow> ([], Inl (Raised OSError))
      | Some lines \<Rightarrow>
          if lines = [] then ([ErrNoLines filename], Inl (Exit 1))
          else if is_lsinventory lines
          then ([ReadingLsinventoryFile filename], Inr (read_lsinventory lines))
          else bind_io (say [ReadingLspatchesFile filename])
                 (\<lambda>_. read_lspatches lines filename))"

definition opatch_path_of :: "string \<Rightarrow> string" where
  \<comment> \<open>\<open>os.path.join(oracle_home, "OPatch", "opatch")\<close>\<close>
  "opatch_path_of oracle_home =
     (if oracle_home = [] \<or> last oracle_home = CHR ''/''
      then oracle_home @ ''OPatch'' else oracle_home @ ''/OPatch'') @ ''/opatch''"

definition check_opatch_path :: "env \<Rightarrow> string \<Rightarrow> msg list \<times> string option" where
  "check_opatch_path e oracle_home =
     (if \<not> os_isdir e oracle_home then ([ErrNoDirectory oracle_home], None)
      else
        let opatch_path = opatch_path_of oracle_home in
        if \<not> os_exists e opatch_path then ([ErrNoPath opatch_path], None)
        else if \<not> os_isfile e opatch_path \<or> \<not> os_access_x e opatch_path
        then ([ErrNotExecutable opatch_path], None)
        else ([], Some opatch_path))"

definition read_opatch_output :: "string \<Rightarrow> string list \<Rightarrow> bool \<Rightarrow> patch_set io" where
  "read_opatch_output oracle_home lines is_lspatches =
     (if is_lspatches
      then bind_io (say [ReadingLspatchesHome oracle_home])
             (\<lambda>_. read_lspatches lines oracle_home)
      else ([ReadingLsinventoryHome oracle_home], Inr (read_lsinventory lines)))"

definition run_opatch :: "env \<Rightarrow> OPatchArg \<Rightarrow> patch_set io" where
  "run_opatch e src =
     (case check_opatch_path e (path src) of
        (out, None) \<Rightarrow> (out, Inr [])
      | (out, Some opatch) \<Rightarrow>
          let cmd = [opatch, if lspatches src then ''lspatches'' else ''lsinventory''] in
          bind_io (say (out @ [RunningCommand cmd]))
            (\<lambda>_. case subprocess_run e cmd (path src) of
                    ProcOSError \<Rightarrow> ([], Inl (Raised OSError))
                  | ProcFailed err \<Rightarrow> ([ErrCommandFailed cmd err], Inl (Exit 1))
                  | ProcOut lines \<Rightarrow>
                      if lines \<noteq> []
                      then bind_io
                             (case out_file src of
                                None \<Rightarrow> say []
                              | Some f \<Rightarrow>
                                  if f = [] then say []
                                  else if write_file e f then say [OutputSaved f]
                                  else ([], Inl (Raised OSError)))
                             (\<lambda>_. read_opatch_output (path src) lines (lspatches src))
                      else ([], Inr [])))"

definition read_opatch_source :: "env \<Rightarrow> OPatchArg \<Rightarrow> patch_set io" where
  "read_opatch_source e src =
     (if source src = ''file''
      then bind_io (read_patches e (path src))
             (\<lambda>ps. (if ps = [] then [NoPatchesFile (path src)] else [], Inr ps))
      else if source src = ''oracle_home''
      then bind_io (run_opatch e src)
             (\<lambda>ps. (if ps = [] then [NoPatchesHome (path src)] else [], Inr ps))
      else ([], Inr []))"

section \<open>Release updates\<close>

text \<open>
  The scan both release-update functions run: the records in insertion order, the first
  description that starts with the marker ends the loop. \<open>startswith\<close> on a
  description that is \<open>None\<close> raises \<open>AttributeError\<close>.
\<close>

fun ru_scan :: "patch_set \<Rightarrow> exc + string option" where
  "ru_scan [] = Inr None"
| "ru_scan ((num, p) # r) =
     (case description p of
        None \<Rightarrow> Inl AttributeError
      | Some d \<Rightarrow>
          if startswith d ''Database Release Update'' then Inr (Some d) else ru_scan r)"

definition truthy_str :: "string option \<Rightarrow> bool" where
  "truthy_str r = (case r of None \<Rightarrow> False | Some s \<Rightarrow> s \<noteq> [])"

definition fmt :: "string option \<Rightarrow> string" where
  \<comment> \<open>how an f-string prints a string or \<open>None\<close>\<close>
  "fmt r = (case r of None \<Rightarrow> ''None'' | Some s \<Rightarrow> s)"

definition check_release_update :: "patch_set \<Rightarrow> patch_set \<Rightarrow> unit io" where
  "check_release_update first second =
     (case ru_scan first of
        Inl x \<Rightarrow> ([], Inl (Raised x))
      | Inr ru1 \<Rightarrow>
          (case ru_scan second of
             Inl x \<Rightarrow> ([], Inl (Raised x))
           | Inr ru2 \<Rightarrow>
               if truthy_str ru1 \<and> truthy_str ru2 \<and> ru1 \<noteq> ru2
               then say [WarnReleaseUpdatesDiffer, FirstSourceRU (fmt ru1),
                         SecondSourceRU (fmt ru2)]
               else if truthy_str ru1 then say [PlainRU (fmt ru1)]
               else say []))"

definition print_release_update :: "patch_set \<Rightarrow> unit io" where
  "print_release_update ps =
     (if ps = [] then say []
      else bind_io (say [ReleaseUpdateHeader])
             (\<lambda>_. case ru_scan ps of
                     Inl x \<Rightarrow> ([], Inl (Raised x))
                   | Inr (Some d) \<Rightarrow> say [ReleaseUpdateFound d]
                   | Inr None \<Rightarrow> say [ReleaseUpdateNotFound]))"

section \<open>The comparator\<close>

definition source_label :: "OPatchArg \<Rightarrow> string" where
  "source_label a =
     (if source a = ''oracle_home'' then ''ORACLE_HOME: '' @ path a
      else ''file: '' @ path a)"

definition patches_dif :: "patch_set \<Rightarrow> patch_set \<Rightarrow> int list" where
  \<comment> \<open>\<open>sorted(set(patches1) - set(patches2))\<close>\<close>
  "patches_dif p1 p2 = sorted_list_of_set (set (dict_keys p1) - set (dict_keys p2))"

fun report_patches ::
  "(string \<Rightarrow> msg) \<Rightarrow> bool \<Rightarrow> patch_set \<Rightarrow> int list \<Rightarrow> unit io" where
  "report_patches extra short ps [] = say []"
| "report_patches extra short ps (num # r) =
     (case map_of ps num of
        None \<Rightarrow> ([], Inl (Raised KeyError))
      | Some patch_data \<Rightarrow>
          bind_io
            (say (PatchLine num (description patch_data) #
                  (if \<not> short \<and> extra_lines patch_data \<noteq> []
                   then [extra (extra_lines patch_data)] else [])))
            (\<lambda>_. report_patches extra short ps r))"

definition compare_patches ::
  "bool \<Rightarrow> OPatchArg \<Rightarrow> OPatchArg \<Rightarrow> patch_set \<Rightarrow> patch_set \<Rightarrow> unit io" where
  "compare_patches short first second patches1 patches2 =
     (let sources1 = source_label first; sources2 = source_label second in
      bind_io (say [SummaryHeader,
                    FirstSourceCount sources1 (length patches1),
                    SecondSourceCount sources2 (length patches2)]) (\<lambda>_.
      bind_io (check_release_update patches1 patches2) (\<lambda>_.
      bind_io (say [OnlyFirstHeader]) (\<lambda>_.
      bind_io (if patches_dif patches1 patches2 = []
               then say [NoPatchesOnlyFirst sources1]
               else report_patches ExtraLinesFirst short patches1
                      (patches_dif patches1 patches2)) (\<lambda>_.
      bind_io (say [OnlySecondHeader]) (\<lambda>_.
      bind_io (if patches_dif patches2 patches1 = []
               then say [NoPatchesOnlySecond sources2]
               else report_patches ExtraLinesSecond short patches2
                      (patches_dif patches2 patches1)) (\<lambda>_.
      ([], Inl (Exit 0)))))))))"

section \<open>The driver\<close>

definition prepare_patches ::
  "env \<Rightarrow> bool \<Rightarrow> OPatchArg \<Rightarrow> OPatchArg option \<Rightarrow> bool \<Rightarrow> unit io" where
  "prepare_patches e short first second ru =
     bind_io (read_opatch_source e first) (\<lambda>patches1.
     bind_io (if ru \<or> second = None then print_release_update patches1 else say []) (\<lambda>_.
       if patches1 = [] then ([], Inl (Exit 1))
       else
         (case second of
            None \<Rightarrow> ([], Inl (Exit 0))
          | Some sec \<Rightarrow>
              bind_io (say [Blank]) (\<lambda>_.
              bind_io (read_opatch_source e sec) (\<lambda>patches2.
              bind_io (if ru then print_release_update patches2 else say []) (\<lambda>_.
                if patches2 = [] then ([], Inl (Exit 1))
                else if ru then ([], Inl (Exit 0))
                else compare_patches short first sec patches1 patches2))))))"

section \<open>Readings of the specification\<close>

text \<open>
  The patch-list decoder in the words of the specification: which lines are skipped, the
  two parts of a line split at its first semicolon, and the records of the lines that are
  not skipped, assigned to a dictionary in order.
\<close>

definition lspatches_skipped :: "string \<Rightarrow> bool" where
  "lspatches_skipped l = (strip l = [] \<or> CHR '';'' \<notin> set (strip l))"

definition lspatches_num :: "string \<Rightarrow> string" where
  "lspatches_num l = takeWhile (\<lambda>c. c \<noteq> CHR '';'') (strip l)"

definition lspatches_desc :: "string \<Rightarrow> string" where
  "lspatches_desc l = tl (dropWhile (\<lambda>c. c \<noteq> CHR '';'') (strip l))"

definition dict_of_list :: "('k \<times> 'v) list \<Rightarrow> ('k \<times> 'v) list \<Rightarrow> ('k \<times> 'v) list" where
  "dict_of_list d recs = foldl (\<lambda>d kv. dict_set d (fst kv) (snd kv)) d recs"

definition lspatches_records :: "string list \<Rightarrow> (int \<times> patch) list" where
  "lspatches_records lines =
     map (\<lambda>l. (the (py_int (lspatches_num l)),
                \<lparr>description = Some (lspatches_desc l), extra_lines = []\<rparr>))
       (filter (\<lambda>l. \<not> lspatches_skipped l) lines)"

section \<open>Records closed by the full-inventory decoder\<close>

text \<open>
  The records the loop of \<open>read_lsinventory\<close> inserts, in the order of insertion: one
  at each header line met while a record is open (extra lines joined with line breaks),
  one at the end of the input (extra lines joined with the empty string). An ordinary
  line is one that matches neither regular expression. Two states are alike when they
  differ at most in the Patch Set built so far.
\<close>

definition closed_by :: "string \<Rightarrow> lsinv_state \<Rightarrow> (int \<times> patch) list" where
  "closed_by sep s =
     (case current_id s of
        None \<Rightarrow> []
      | Some k \<Rightarrow>
          if k \<noteq> 0
          then [(k, \<lparr>description = current_desc s, extra_lines = py_join sep (extra_buf s)\<rparr>)]
          else [])"

fun closed_records :: "lsinv_state \<Rightarrow> string list \<Rightarrow> (int \<times> patch) list" where
  "closed_records s [] = closed_by [] s"
| "closed_records s (l # ls) =
     (if patch_match l \<noteq> None then closed_by [nl] s else [])
     @ closed_records (lsinventory_step s l) ls"

definition same_open :: "lsinv_state \<Rightarrow> lsinv_state \<Rightarrow> bool" where
  "same_open s t =
     (current_id s = current_id t \<and> current_desc s = current_desc t
      \<and> extra_buf s = extra_buf t \<and> is_capturing_extra s = is_capturing_extra t)"


section \<open>Reading a report\<close>

text \<open>
  The identifiers a comparison report lists: the \<open>PatchLine\<close> messages between the
  two section headers, and those after the second header. A release update is absent
  from a Patch Set when every record has a description and none starts with the marker.
\<close>

definition patch_ids :: "msg list \<Rightarrow> int list" where
  "patch_ids out = concat (map (\<lambda>m. case m of PatchLine num d \<Rightarrow> [num] | _ \<Rightarrow> []) out)"

definition reported_first :: "msg list \<Rightarrow> int list" where
  "reported_first out =
     patch_ids (takeWhile (\<lambda>m. m \<noteq> OnlySecondHeader)
                  (dropWhile (\<lambda>m. m \<noteq> OnlyFirstHeader) out))"

definition reported_second :: "msg list \<Rightarrow> int list" where
  "reported_second out = patch_ids (dropWhile (\<lambda>m. m \<noteq> OnlySecondHeader) out)"

definition plain_msg :: "msg \<Rightarrow> bool" where
  "plain_msg m = (m \<noteq> OnlyFirstHeader \<and> m \<noteq> OnlySecondHeader \<and> patch_ids [m] = [])"

definition no_release_update :: "patch_set \<Rightarrow> bool" where
  "no_release_update ps =
     list_all (\<lambda>kv. case description (snd kv) of
                      None \<Rightarrow> False
                    | Some d \<Rightarrow> \<not> startswith d ''Database Release Update'') ps"

section \<open>Sample text\<close>

definition desc_line :: "string \<Rightarrow> string" where
  \<comment> \<open>a description line of the full inventory, the text between double quotes\<close>
  "desc_line d = ''Patch description : '' @ [CHR 0x22] @ d @ [CHR 0x22]"

definition file_source :: "string \<Rightarrow> OPatchArg" where
  "file_source p =
     \<lparr>source = ''file'', path = p, lspatches = False, lsinventory = False, out_file = Some []\<rparr>"

definition sample_env :: env where
  "sample_env =
     \<lparr>read_file = (\<lambda>f.
         if f = ''f1'' then Some [''nothing here'']
         else if f = ''f2'' then Some [''1;Database Release Update 19.1'', ''5;x'']
         else if f = ''f3'' then Some [''Interim patches (1) :'', ''Patch 101 : applied'']
         else if f = ''f4'' then Some [''7;good'', ''abc;Bad ID'']
         else None),
      os_isdir = (\<lambda>_. False), os_exists = (\<lambda>_. False), os_isfile = (\<lambda>_. False),
      os_access_x = (\<lambda>_. False), subprocess_run = (\<lambda>_ _. ProcOSError),
      write_file = (\<lambda>_. False)\<rparr>"

definition ru_patch :: "string \<Rightarrow> patch" where
  "ru_patch v = \<lparr>description = Some (''Database Release Update '' @ v), extra_lines = []\<rparr>"

definition plain_patch :: "string \<Rightarrow> patch" where
  "plain_patch d = \<lparr>description = Some d, extra_lines = []\<rparr>"

section \<open>The identifier of a header line\<close>

text \<open>
  The decoder of the full inventory converts the digits of a header line with
  \<open>int()\<close>; the loop state holds their value. The conversion cannot fail on them.
\<close>

lemma digit_facts:
  "py_isdigit c \<Longrightarrow> \<not> int_isspace c \<and> c \<noteq> CHR ''-'' \<and> c \<noteq> CHR ''+'' \<and> c \<noteq> CHR ''_''"
  by (auto simp: py_isdigit_def int_isspace_def)

lemma digit_group_digits:
  "ds \<noteq> [] \<Longrightarrow> \<forall>c\<in>set ds. py_isdigit c \<Longrightarrow> digit_group ds"
  by (induction ds rule: digit_group.induct) (auto simp: digit_facts)

lemma dropWhile_head: "xs \<noteq> [] \<Longrightarrow> \<not> P (hd xs) \<Longrightarrow> dropWhile P xs = xs"
  by (cases xs) auto

lemma py_int_digits:
  assumes "ds \<noteq> []" and "\<forall>c\<in>set ds. py_isdigit c"
  shows "py_int ds = Some (digits_value ds)"
proof -
  have h: "\<not> int_isspace (hd ds)" "hd ds \<noteq> CHR ''-''" "hd ds \<noteq> CHR ''+''"
    using assms digit_facts [of "hd ds"] by (cases ds; simp)+
  have l: "\<not> int_isspace (hd (rev ds))"
    using assms digit_facts [of "last ds"] by (simp add: hd_rev)
  have a: "dropWhile int_isspace ds = ds" using assms(1) h(1) by (rule dropWhile_head)
  have b: "dropWhile int_isspace (rev ds) = rev ds"
    using assms(1) l by (intro dropWhile_head) simp_all
  show ?thesis
    using digit_group_digits [OF assms] h assms(1)
    by (simp add: py_int_def a b Let_def)
qed

lemma header_identifier_is_int:
  "patch_match line = Some ds \<Longrightarrow> py_int ds = Some (digits_value ds)"
proof -
  assume m: "patch_match line = Some ds"
  then obtain r where "ds = takeWhile py_isdigit r" "ds \<noteq> []"
    by (auto simp: patch_match_def Let_def split: Option.bind_splits if_splits)
  then show ?thesis by (intro py_int_digits) (auto dest: set_takeWhileD)
qed

section \<open>Dictionary assignment\<close>

lemma set_dict_keys_dict_set:
  "set (dict_keys (dict_set d k v)) = insert k (set (dict_keys d))"
  by (induction d) (force simp: dict_keys_def split: if_splits)+

lemma distinct_dict_set:
  "distinct (dict_keys d) \<Longrightarrow> distinct (dict_keys (dict_set d k v))"
proof (induction d)
  case Nil
  show ?case by (simp add: dict_keys_def)
next
  case (Cons a d)
  obtain k' v' where a: "a = (k', v')" by (cases a)
  from Cons.prems have d: "distinct (dict_keys d)" and nk: "k' \<notin> set (dict_keys d)"
    by (simp_all add: dict_keys_def a)
  have ih: "distinct (dict_keys (dict_set d k v))" using Cons.IH d by simp
  show ?case
  proof (cases "k' = k")
    case True
    then show ?thesis using Cons.prems by (simp add: a dict_keys_def)
  next
    case False
    have "k' \<notin> set (dict_keys (dict_set d k v))"
      using nk False by (simp add: set_dict_keys_dict_set)
    then show ?thesis using ih False by (simp add: a dict_keys_def)
  qed
qed

lemma map_of_dict_set: "map_of (dict_set d k v) = (map_of d)(k \<mapsto> v)"
  by (induction d) auto

section \<open>The full-inventory decoder never stores identifier 0\<close>

lemma step_patches_keys:
  "set (dict_keys (patches (lsinventory_step s l))) \<subseteq>
     set (dict_keys (patches s)) \<union> {k. current_id s = Some k \<and> k \<noteq> 0}"
  by (auto simp: lsinventory_step_def set_dict_keys_dict_set
           split: option.splits if_splits)

lemma zero_step:
  "0 \<notin> set (dict_keys (patches s)) \<Longrightarrow>
   0 \<notin> set (dict_keys (patches (lsinventory_step s l)))"
  using step_patches_keys [of s l] by auto

lemma zero_loop:
  "0 \<notin> set (dict_keys (patches s)) \<Longrightarrow>
   0 \<notin> set (dict_keys (patches (foldl lsinventory_step s ls)))"
  by (induction ls arbitrary: s) (simp_all add: zero_step)

lemma zero_finish:
  "0 \<notin> set (dict_keys (patches s)) \<Longrightarrow> 0 \<notin> set (dict_keys (lsinventory_finish s))"
  by (auto simp: lsinventory_finish_def set_dict_keys_dict_set split: option.splits)

lemma patch_match_zero: "patch_match ''Patch 0 :'' = Some ''0''"
  by (simp add: patch_match_def spaces1_def py_isspace_def py_isdigit_def)

lemma digits_value_zero: "digits_value ''0'' = 0"
  by (simp add: digits_value_def py_isdigit_def)

text \<open>
  C10. The header \<open>Patch 0 :\<close> sets the current identifier to 0. While the current
  identifier is 0, a header line leaves the Patch Set as it was, every other line
  (a description line too) leaves the whole loop state as it was, and the end of the
  input adds nothing. For every input, 0 is not a key of the decoder's result.
\<close>

theorem zero_identifier_never_stored:
  "current_id (lsinventory_step s ''Patch 0 :'') = Some 0
   \<and> (current_id s = Some 0 \<and> patch_match l \<noteq> None \<longrightarrow>
        patches (lsinventory_step s l) = patches s)
   \<and> (current_id s = Some 0 \<and> patch_match l = None \<longrightarrow> lsinventory_step s l = s)
   \<and> (current_id s = Some 0 \<longrightarrow> lsinventory_finish s = patches s)
   \<and> 0 \<notin> set (dict_keys (read_lsinventory ls))"
proof -
  have a: "current_id (lsinventory_step s ''Patch 0 :'') = Some 0"
    by (simp add: lsinventory_step_def patch_match_zero digits_value_zero)
  have b: "current_id s = Some 0 \<and> patch_match l \<noteq> None \<longrightarrow>
        patches (lsinventory_step s l) = patches s"
    by (auto simp: lsinventory_step_def)
  have c: "current_id s = Some 0 \<and> patch_match l = None \<longrightarrow> lsinventory_step s l = s"
    by (auto simp: lsinventory_step_def truthy_id_def split: option.splits)
  have d: "current_id s = Some 0 \<longrightarrow> lsinventory_finish s = patches s"
    by (simp add: lsinventory_finish_def)
  have "0 \<notin> set (dict_keys (patches lsinv_init))"
    by (simp add: lsinv_init_def dict_keys_def)
  then have e: "0 \<notin> set (dict_keys (read_lsinventory ls))"
    unfolding read_lsinventory_def by (intro zero_finish zero_loop)
  from a b c d e show ?thesis by blast
qed

theorem zero_identifier_never_stored_witness:
  "current_id (foldl lsinventory_step lsinv_init [''Patch 7 :'', ''Patch 0 :'']) = Some 0
   \<and> patch_match ''Patch 8 :'' \<noteq> None
   \<and> patches (lsinventory_step
         (foldl lsinventory_step lsinv_init [''Patch 7 :'', ''Patch 0 :'']) ''Patch 8 :'')
       = patches (foldl lsinventory_step lsinv_init [''Patch 7 :'', ''Patch 0 :''])
   \<and> 0 \<notin> set (dict_keys (read_lsinventory
         [''Patch 7 :'', ''Patch 0 :'', desc_line ''Zero'', ''  detail'']))"
proof -
  have h1: "current_id (foldl lsinventory_step lsinv_init [''Patch 7 :'', ''Patch 0 :''])
              = Some 0"
    by code_simp
  have h2: "patch_match ''Patch 8 :'' \<noteq> None"
    by code_simp
  from h1 h2
    zero_identifier_never_stored
      [of "foldl lsinventory_step lsinv_init [''Patch 7 :'', ''Patch 0 :'']" "''Patch 8 :''"
          "[''Patch 7 :'', ''Patch 0 :'', desc_line ''Zero'', ''  detail'']"]
  show ?thesis by blast
qed

section \<open>Dictionaries built from a list of records\<close>

lemma map_of_dict_of_list:
  "map_of (dict_of_list d recs) = map_of d ++ map_of (rev recs)"
proof (induction recs arbitrary: d)
  case Nil
  show ?case by (simp add: dict_of_list_def)
next
  case (Cons kv recs)
  have "dict_of_list d (kv # recs) = dict_of_list (dict_set d (fst kv) (snd kv)) recs"
    by (simp add: dict_of_list_def)
  then have "map_of (dict_of_list d (kv # recs)) =
        (map_of d)(fst kv \<mapsto> snd kv) ++ map_of (rev recs)"
    by (simp only: Cons.IH map_of_dict_set)
  also have "\<dots> = map_of d ++ map_of (rev (kv # recs))"
    by (cases kv) (auto simp: fun_eq_iff map_add_def split: option.splits)
  finally show ?case .
qed

lemma distinct_dict_of_list:
  "distinct (dict_keys d) \<Longrightarrow> distinct (dict_keys (dict_of_list d recs))"
  unfolding dict_of_list_def
  by (induction recs arbitrary: d) (simp_all add: distinct_dict_set)

lemma dict_of_list_append:
  "dict_of_list d (xs @ ys) = dict_of_list (dict_of_list d xs) ys"
  by (simp add: dict_of_list_def)

lemma dict_keys_iff: "k \<in> set (dict_keys d) \<longleftrightarrow> map_of d k \<noteq> None"
  by (simp add: dict_keys_def map_of_eq_None_iff)

lemma extra_lines_dict_of_list:
  "list_all (\<lambda>kv. extra_lines (snd kv) = []) d \<Longrightarrow>
   list_all (\<lambda>kv. extra_lines (snd kv) = []) recs \<Longrightarrow>
   list_all (\<lambda>kv. extra_lines (snd kv) = []) (dict_of_list d recs)"
proof (induction recs arbitrary: d)
  case Nil
  then show ?case by (simp add: dict_of_list_def)
next
  case (Cons kv recs)
  have "list_all (\<lambda>kv. extra_lines (snd kv) = []) (dict_set d (fst kv) (snd kv))"
    using Cons.prems by (induction d) (auto)
  then show ?case using Cons by (simp add: dict_of_list_def)
qed

section \<open>The patch-list decoder, line by line\<close>

lemma lspatches_loop_skip:
  "lspatches_skipped l \<Longrightarrow> lspatches_loop ps (l # ls) f = lspatches_loop ps ls f"
  by (auto simp: lspatches_skipped_def Let_def)

lemma lspatches_loop_store:
  "\<not> lspatches_skipped l \<Longrightarrow> py_int (lspatches_num l) = Some n \<Longrightarrow>
   lspatches_loop ps (l # ls) f =
     lspatches_loop
       (dict_set ps n \<lparr>description = Some (lspatches_desc l), extra_lines = []\<rparr>) ls f"
  by (auto simp: lspatches_skipped_def lspatches_num_def lspatches_desc_def Let_def)

lemma lspatches_loop_fail:
  "\<not> lspatches_skipped l \<Longrightarrow> py_int (lspatches_num l) = None \<Longrightarrow>
   lspatches_loop ps (l # ls) f = ([ErrInvalidPatchId (lspatches_num l) f], Inl (Exit 1))"
  by (auto simp: lspatches_skipped_def lspatches_num_def lspatches_desc_def Let_def)

lemma lspatches_loop_first_bad:
  "l \<in> set ls \<Longrightarrow> \<not> lspatches_skipped l \<Longrightarrow> py_int (lspatches_num l) = None \<Longrightarrow>
   \<exists>bad. bad \<in> set ls \<and> \<not> lspatches_skipped bad \<and> py_int (lspatches_num bad) = None \<and>
     lspatches_loop ps ls f = ([ErrInvalidPatchId (lspatches_num bad) f], Inl (Exit 1))"
proof (induction ls arbitrary: ps)
  case Nil
  then show ?case by simp
next
  case (Cons x xs)
  show ?case
  proof (cases "lspatches_skipped x")
    case True
    with Cons.prems have "l \<in> set xs" by auto
    from Cons.IH [OF this Cons.prems(2,3), of ps] show ?thesis
      unfolding lspatches_loop_skip [OF True] by auto
  next
    case False
    show ?thesis
    proof (cases "py_int (lspatches_num x)")
      case None
      then show ?thesis using lspatches_loop_fail [OF False None, of ps xs f] False by auto
    next
      case (Some n)
      have "l \<in> set xs" using Cons.prems Some by auto
      from Cons.IH [OF this Cons.prems(2,3)] show ?thesis
        unfolding lspatches_loop_store [OF False Some] by auto
    qed
  qed
qed

lemma lspatches_loop_records:
  "\<forall>l\<in>set ls. \<not> lspatches_skipped l \<longrightarrow> py_int (lspatches_num l) \<noteq> None \<Longrightarrow>
   lspatches_loop ps ls f = ([], Inr (dict_of_list ps (lspatches_records ls)))"
proof (induction ls arbitrary: ps)
  case Nil
  show ?case by (simp add: dict_of_list_def lspatches_records_def)
next
  case (Cons x xs)
  show ?case
  proof (cases "lspatches_skipped x")
    case True
    then have "lspatches_records (x # xs) = lspatches_records xs"
      by (simp add: lspatches_records_def)
    then show ?thesis using Cons True by (simp add: lspatches_loop_skip del: lspatches_loop.simps)
  next
    case False
    then obtain n where n: "py_int (lspatches_num x) = Some n" using Cons.prems by auto
    have "lspatches_records (x # xs) =
       (n, \<lparr>description = Some (lspatches_desc x), extra_lines = []\<rparr>) # lspatches_records xs"
      using False n by (simp add: lspatches_records_def)
    then show ?thesis using Cons False n
      by (simp add: lspatches_loop_store dict_of_list_def del: lspatches_loop.simps)
  qed
qed

lemma lspatches_loop_ok_parses:
  "lspatches_loop ps ls f = (out, Inr r) \<Longrightarrow>
   \<forall>l\<in>set ls. \<not> lspatches_skipped l \<longrightarrow> py_int (lspatches_num l) \<noteq> None"
proof (rule ccontr)
  assume ok: "lspatches_loop ps ls f = (out, Inr r)"
  assume "\<not> (\<forall>l\<in>set ls. \<not> lspatches_skipped l \<longrightarrow> py_int (lspatches_num l) \<noteq> None)"
  then obtain l where "l \<in> set ls" "\<not> lspatches_skipped l" "py_int (lspatches_num l) = None"
    by auto
  from lspatches_loop_first_bad [OF this, of ps f] ok show False by auto
qed

lemma lspatches_loop_filter:
  "lspatches_loop ps (filter (\<lambda>l. \<not> lspatches_skipped l) ls) f = lspatches_loop ps ls f"
proof (induction ls arbitrary: ps)
  case Nil
  show ?case by simp
next
  case (Cons x xs)
  show ?case
  proof (cases "lspatches_skipped x")
    case True
    then show ?thesis using Cons by (simp add: lspatches_loop_skip del: lspatches_loop.simps)
  next
    case False
    show ?thesis
    proof (cases "py_int (lspatches_num x)")
      case None
      then show ?thesis using False by (simp add: lspatches_loop_fail del: lspatches_loop.simps)
    next
      case (Some n)
      then show ?thesis using False Cons
        by (simp add: lspatches_loop_store del: lspatches_loop.simps)
    qed
  qed
qed

lemma split_first_semicolon:
  "\<not> lspatches_skipped l \<Longrightarrow>
   strip l = lspatches_num l @ '';'' @ lspatches_desc l \<and> CHR '';'' \<notin> set (lspatches_num l)"
proof -
  assume "\<not> lspatches_skipped l"
  then have m: "CHR '';'' \<in> set (strip l)" by (simp add: lspatches_skipped_def)
  then have "dropWhile (\<lambda>c. c \<noteq> CHR '';'') (strip l) \<noteq> []"
    by auto
  moreover have "\<not> (hd (dropWhile (\<lambda>c. c \<noteq> CHR '';'') (strip l)) \<noteq> CHR '';'')"
    using calculation by (rule hd_dropWhile)
  ultimately have "dropWhile (\<lambda>c. c \<noteq> CHR '';'') (strip l) = CHR '';'' # lspatches_desc l"
    by (cases "dropWhile (\<lambda>c. c \<noteq> CHR '';'') (strip l)") (auto simp: lspatches_desc_def)
  then have "strip l = lspatches_num l @ CHR '';'' # lspatches_desc l"
    unfolding lspatches_num_def by (metis takeWhile_dropWhile_id)
  moreover have "CHR '';'' \<notin> set (lspatches_num l)"
    unfolding lspatches_num_def by (auto dest: set_takeWhileD)
  ultimately show ?thesis by simp
qed

lemma lspatches_records_append:
  "lspatches_records (xs @ ys) = lspatches_records xs @ lspatches_records ys"
  by (simp add: lspatches_records_def)

text \<open>
  C7. If some line of a patch-list text is not skipped and the part left of its first
  semicolon is not accepted by \<open>int()\<close>, decoding returns no Patch Set: it prints
  the invalid-identifier message with the offending token of such a line and the source
  name, and leaves with exit status 1. Read from a file, the whole run of the driver
  ends there with status 1, whatever the second source and the flags are.
\<close>

theorem malformed_identifier_is_fatal:
  assumes "l \<in> set lines" and "\<not> lspatches_skipped l" and "py_int (lspatches_num l) = None"
  shows "\<exists>bad. bad \<in> set lines \<and> \<not> lspatches_skipped bad \<and> py_int (lspatches_num bad) = None
     \<and> read_lspatches lines filename =
         ([ErrInvalidPatchId (lspatches_num bad) filename], Inl (Exit 1))
     \<and> (source first = ''file'' \<and> path first = filename
          \<and> read_file e filename = Some lines \<and> \<not> is_lsinventory lines \<longrightarrow>
        prepare_patches e short first second ru =
          ([ReadingLspatchesFile filename, ErrInvalidPatchId (lspatches_num bad) filename],
           Inl (Exit 1)))"
proof -
  from lspatches_loop_first_bad [OF assms, of "[]" filename]
  obtain bad where bad: "bad \<in> set lines" "\<not> lspatches_skipped bad"
      "py_int (lspatches_num bad) = None"
      "read_lspatches lines filename =
         ([ErrInvalidPatchId (lspatches_num bad) filename], Inl (Exit 1))"
    unfolding read_lspatches_def by blast
  have ne: "lines \<noteq> []" using assms(1) by auto
  have "source first = ''file'' \<and> path first = filename
          \<and> read_file e filename = Some lines \<and> \<not> is_lsinventory lines \<longrightarrow>
        prepare_patches e short first second ru =
          ([ReadingLspatchesFile filename, ErrInvalidPatchId (lspatches_num bad) filename],
           Inl (Exit 1))"
    using ne bad(4)
    by (simp add: prepare_patches_def read_opatch_source_def read_patches_def bind_io_def
          say_def)
  with bad show ?thesis by blast
qed

text \<open>
  The line \<open>abc;Bad ID\<close> after a well-formed line.
\<close>

theorem malformed_identifier_is_fatal_witness:
  "\<exists>bad. bad \<in> set [''7;good'', ''abc;Bad ID'']
     \<and> read_lspatches [''7;good'', ''abc;Bad ID''] ''f4'' =
         ([ErrInvalidPatchId (lspatches_num bad) ''f4''], Inl (Exit 1))
     \<and> prepare_patches sample_env False (file_source ''f4'') None False =
         ([ReadingLspatchesFile ''f4'', ErrInvalidPatchId (lspatches_num bad) ''f4''],
          Inl (Exit 1))"
proof -
  have h1: "''abc;Bad ID'' \<in> set [''7;good'', ''abc;Bad ID'']" by simp
  have h2: "\<not> lspatches_skipped ''abc;Bad ID''" by code_simp
  have h3: "py_int (lspatches_num ''abc;Bad ID'') = None" by code_simp
  have h4: "source (file_source ''f4'') = ''file''" "path (file_source ''f4'') = ''f4''"
    by (simp_all add: file_source_def)
  have h5: "read_file sample_env ''f4'' = Some [''7;good'', ''abc;Bad ID'']" by code_simp
  have h6: "\<not> is_lsinventory [''7;good'', ''abc;Bad ID'']" by code_simp
  from malformed_identifier_is_fatal [OF h1 h2 h3, of "''f4''" "file_source ''f4''" sample_env
      False None False] h4 h5 h6
  show ?thesis by blast
qed

text \<open>
  C6. Lines that are empty after trimming or have no semicolon do not change the result
  of the patch-list decoder. Every other line is its left part, one semicolon and its
  right part, and the left part has no semicolon. When every left part is an integer
  the result is the dictionary of the records (identifier, right part as description,
  empty extra lines) in line order; every Patch Set the decoder returns is that
  dictionary, and all its records have empty extra lines.
\<close>

theorem patch_list_decoding:
  "read_lspatches (filter (\<lambda>l. \<not> lspatches_skipped l) lines) f = read_lspatches lines f
   \<and> (\<not> lspatches_skipped l \<longrightarrow>
        strip l = lspatches_num l @ '';'' @ lspatches_desc l
        \<and> CHR '';'' \<notin> set (lspatches_num l))
   \<and> ((\<forall>l\<in>set lines. \<not> lspatches_skipped l \<longrightarrow> py_int (lspatches_num l) \<noteq> None) \<longrightarrow>
        read_lspatches lines f = ([], Inr (dict_of_list [] (lspatches_records lines))))
   \<and> (read_lspatches lines f = (out, Inr ps) \<longrightarrow>
        ps = dict_of_list [] (lspatches_records lines)
        \<and> list_all (\<lambda>kv. extra_lines (snd kv) = []) ps)"
proof -
  have a: "read_lspatches (filter (\<lambda>l. \<not> lspatches_skipped l) lines) f = read_lspatches lines f"
    by (simp only: read_lspatches_def lspatches_loop_filter)
  have b: "\<not> lspatches_skipped l \<longrightarrow>
        strip l = lspatches_num l @ '';'' @ lspatches_desc l
        \<and> CHR '';'' \<notin> set (lspatches_num l)"
    using split_first_semicolon [of l] by blast
  have c: "(\<forall>l\<in>set lines. \<not> lspatches_skipped l \<longrightarrow> py_int (lspatches_num l) \<noteq> None) \<longrightarrow>
        read_lspatches lines f = ([], Inr (dict_of_list [] (lspatches_records lines)))"
    using lspatches_loop_records [of lines "[]" f] by (simp add: read_lspatches_def)
  have recs: "list_all (\<lambda>kv. extra_lines (snd kv) = []) (lspatches_records lines)"
    by (simp add: lspatches_records_def list_all_iff)
  have d: "read_lspatches lines f = (out, Inr ps) \<longrightarrow>
        ps = dict_of_list [] (lspatches_records lines)
        \<and> list_all (\<lambda>kv. extra_lines (snd kv) = []) ps"
  proof
    assume ok: "read_lspatches lines f = (out, Inr ps)"
    then have "\<forall>l\<in>set lines. \<not> lspatches_skipped l \<longrightarrow> py_int (lspatches_num l) \<noteq> None"
      unfolding read_lspatches_def by (rule lspatches_loop_ok_parses)
    with c ok have "ps = dict_of_list [] (lspatches_records lines)" by simp
    then show "ps = dict_of_list [] (lspatches_records lines)
        \<and> list_all (\<lambda>kv. extra_lines (snd kv) = []) ps"
      using extra_lines_dict_of_list [of "[]" "lspatches_records lines"] recs by simp
  qed
  from a b c d show ?thesis by blast
qed

text \<open>
  A description with semicolons, a blank line, a line without separator and an
  identifier written with an underscore.
\<close>

theorem patch_list_decoding_witness:
  "read_lspatches [''  12 ;a;b;c  '', '''', ''no separator'', ''1_0;x''] ''f'' =
     ([], Inr [(12, plain_patch ''a;b;c''), (10, plain_patch ''x'')])
   \<and> strip ''  12 ;a;b;c  '' = ''12 '' @ '';'' @ ''a;b;c''"
proof -
  let ?lines = "[''  12 ;a;b;c  '', '''', ''no separator'', ''1_0;x'']"
  have h1: "\<forall>l\<in>set ?lines. \<not> lspatches_skipped l \<longrightarrow> py_int (lspatches_num l) \<noteq> None"
    by code_simp
  have h2: "dict_of_list [] (lspatches_records ?lines) =
      [(12, plain_patch ''a;b;c''), (10, plain_patch ''x'')]"
    by code_simp
  have h3: "\<not> lspatches_skipped ''  12 ;a;b;c  ''" by code_simp
  have h4: "lspatches_num ''  12 ;a;b;c  '' = ''12 ''" "lspatches_desc ''  12 ;a;b;c  '' = ''a;b;c''"
    by code_simp+
  from patch_list_decoding [of ?lines "''f''" "''  12 ;a;b;c  ''"] h1 h3
  have "read_lspatches ?lines ''f'' = ([], Inr (dict_of_list [] (lspatches_records ?lines)))"
    and "strip ''  12 ;a;b;c  '' =
           lspatches_num ''  12 ;a;b;c  '' @ '';'' @ lspatches_desc ''  12 ;a;b;c  ''"
    by blast+
  then show ?thesis unfolding h2 h4 by simp
qed

section \<open>The full-inventory decoder as a list of closed records\<close>

lemma step_patches:
  "patches (lsinventory_step s l) =
     dict_of_list (patches s) (if patch_match l \<noteq> None then closed_by [nl] s else [])"
  by (auto simp: lsinventory_step_def dict_of_list_def closed_by_def
           split: option.splits)

lemma finish_patches:
  "lsinventory_finish s = dict_of_list (patches s) (closed_by [] s)"
  by (auto simp: lsinventory_finish_def dict_of_list_def closed_by_def split: option.splits)

lemma loop_patches:
  "lsinventory_finish (foldl lsinventory_step s ls) =
     dict_of_list (patches s) (closed_records s ls)"
proof (induction ls arbitrary: s)
  case Nil
  show ?case by (simp add: finish_patches)
next
  case (Cons l ls)
  have "lsinventory_finish (foldl lsinventory_step s (l # ls)) =
        dict_of_list (patches (lsinventory_step s l)) (closed_records (lsinventory_step s l) ls)"
    by (simp add: Cons.IH)
  also have "\<dots> = dict_of_list (patches s) (closed_records s (l # ls))"
    by (simp only: step_patches [of s l] closed_records.simps dict_of_list_append)
  finally show ?case .
qed

lemma same_open_step:
  "same_open s t \<Longrightarrow> same_open (lsinventory_step s l) (lsinventory_step t l)"
  by (auto simp: same_open_def lsinventory_step_def split: option.splits)

lemma same_open_closed_by: "same_open s t \<Longrightarrow> closed_by sep s = closed_by sep t"
  by (simp add: same_open_def closed_by_def split: option.splits)

lemma same_open_closed_records:
  "same_open s t \<Longrightarrow> closed_records s ls = closed_records t ls"
proof (induction ls arbitrary: s t)
  case Nil
  then show ?case by (simp add: same_open_closed_by)
next
  case (Cons l ls)
  from Cons.prems have "same_open (lsinventory_step s l) (lsinventory_step t l)"
    by (rule same_open_step)
  then have "closed_records (lsinventory_step s l) ls = closed_records (lsinventory_step t l) ls"
    by (rule Cons.IH)
  then show ?case using same_open_closed_by [OF Cons.prems] by simp
qed

lemma same_open_header:
  "patch_match h \<noteq> None \<Longrightarrow> same_open (lsinventory_step s h) (lsinventory_step t h)"
  by (auto simp: same_open_def lsinventory_step_def split: option.splits)

lemma header_init_patches:
  "patches (lsinventory_step lsinv_init h) = []"
  by (auto simp: lsinventory_step_def lsinv_init_def truthy_id_def split: option.splits)

lemma distinct_read_lsinventory: "distinct (dict_keys (read_lsinventory ls))"
  unfolding read_lsinventory_def loop_patches
  by (rule distinct_dict_of_list) (simp add: lsinv_init_def dict_keys_def)

lemma lsinventory_later_wins:
  assumes "patch_match h \<noteq> None"
  shows "map_of (read_lsinventory (pre @ h # rest)) =
         map_of (patches (foldl lsinventory_step lsinv_init (pre @ [h])))
           ++ map_of (read_lsinventory (h # rest))"
proof -
  let ?s = "foldl lsinventory_step lsinv_init pre"
  have so: "same_open (lsinventory_step ?s h) (lsinventory_step lsinv_init h)"
    using assms by (rule same_open_header)
  have "read_lsinventory (pre @ h # rest) =
        lsinventory_finish (foldl lsinventory_step (lsinventory_step ?s h) rest)"
    by (simp add: read_lsinventory_def)
  also have "\<dots> = dict_of_list (patches (lsinventory_step ?s h))
                     (closed_records (lsinventory_step lsinv_init h) rest)"
    by (simp only: loop_patches same_open_closed_records [OF so])
  finally have a: "map_of (read_lsinventory (pre @ h # rest)) =
      map_of (patches (lsinventory_step ?s h))
        ++ map_of (rev (closed_records (lsinventory_step lsinv_init h) rest))"
    by (simp only: map_of_dict_of_list)
  have "read_lsinventory (h # rest) =
        dict_of_list [] (closed_records (lsinventory_step lsinv_init h) rest)"
    by (simp add: read_lsinventory_def loop_patches header_init_patches)
  then have b: "map_of (read_lsinventory (h # rest)) =
      map_of (rev (closed_records (lsinventory_step lsinv_init h) rest))"
    by (simp add: map_of_dict_of_list)
  show ?thesis using a b by simp
qed

text \<open>
  C9. The keys of every Patch Set returned by either decoder are distinct. For the patch
  list, the result for a text in two parts is the result for the first part overridden
  by the result for the second. For the full inventory, the result for a text whose
  second part starts with a header line is the Patch Set built up to that header
  overridden by the result for the second part alone: a later record replaces an
  earlier one with the same identifier.
\<close>

theorem identifiers_unique_last_wins:
  "(read_lspatches lines f = (out, Inr ps) \<longrightarrow> distinct (dict_keys ps))
   \<and> distinct (dict_keys (read_lsinventory lines))
   \<and> (read_lspatches (lines1 @ lines2) f = (out, Inr ps) \<longrightarrow>
        (\<exists>p1 p2. read_lspatches lines1 f = ([], Inr p1) \<and> read_lspatches lines2 f = ([], Inr p2)
           \<and> map_of ps = map_of p1 ++ map_of p2))
   \<and> (patch_match h \<noteq> None \<longrightarrow>
        map_of (read_lsinventory (pre @ h # rest)) =
          map_of (patches (foldl lsinventory_step lsinv_init (pre @ [h])))
            ++ map_of (read_lsinventory (h # rest)))"
proof -
  have a: "read_lspatches lines f = (out, Inr ps) \<longrightarrow> distinct (dict_keys ps)"
  proof
    assume ok: "read_lspatches lines f = (out, Inr ps)"
    then have "\<forall>l\<in>set lines. \<not> lspatches_skipped l \<longrightarrow> py_int (lspatches_num l) \<noteq> None"
      unfolding read_lspatches_def by (rule lspatches_loop_ok_parses)
    from lspatches_loop_records [OF this, of "[]" f] ok
    have "ps = dict_of_list [] (lspatches_records lines)" by (simp add: read_lspatches_def)
    then show "distinct (dict_keys ps)"
      using distinct_dict_of_list [of "[]" "lspatches_records lines"] by (simp add: dict_keys_def)
  qed
  have c: "read_lspatches (lines1 @ lines2) f = (out, Inr ps) \<longrightarrow>
        (\<exists>p1 p2. read_lspatches lines1 f = ([], Inr p1) \<and> read_lspatches lines2 f = ([], Inr p2)
           \<and> map_of ps = map_of p1 ++ map_of p2)"
  proof
    assume ok: "read_lspatches (lines1 @ lines2) f = (out, Inr ps)"
    then have all: "\<forall>l\<in>set (lines1 @ lines2).
        \<not> lspatches_skipped l \<longrightarrow> py_int (lspatches_num l) \<noteq> None"
      unfolding read_lspatches_def by (rule lspatches_loop_ok_parses)
    then have ap: "\<forall>l\<in>set lines1. \<not> lspatches_skipped l \<longrightarrow> py_int (lspatches_num l) \<noteq> None"
      and ao: "\<forall>l\<in>set lines2. \<not> lspatches_skipped l \<longrightarrow> py_int (lspatches_num l) \<noteq> None"
      by auto
    have r: "ps = dict_of_list [] (lspatches_records (lines1 @ lines2))"
      using lspatches_loop_records [OF all, of "[]" f] ok by (simp add: read_lspatches_def)
    have r1: "read_lspatches lines1 f = ([], Inr (dict_of_list [] (lspatches_records lines1)))"
      using lspatches_loop_records [OF ap, of "[]" f] by (simp add: read_lspatches_def)
    have r2: "read_lspatches lines2 f = ([], Inr (dict_of_list [] (lspatches_records lines2)))"
      using lspatches_loop_records [OF ao, of "[]" f] by (simp add: read_lspatches_def)
    have "map_of ps = map_of (dict_of_list [] (lspatches_records lines1))
                        ++ map_of (dict_of_list [] (lspatches_records lines2))"
      unfolding r lspatches_records_append dict_of_list_append
      by (simp add: map_of_dict_of_list)
    with r1 r2 show "\<exists>p1 p2. read_lspatches lines1 f = ([], Inr p1)
           \<and> read_lspatches lines2 f = ([], Inr p2) \<and> map_of ps = map_of p1 ++ map_of p2"
      by blast
  qed
  from a c distinct_read_lsinventory [of lines] lsinventory_later_wins [of h pre rest]
  show ?thesis by blast
qed

text \<open>
  Identifier 5 twice, in both formats.
\<close>

theorem identifiers_unique_last_wins_witness:
  "map_of (read_lsinventory
       [''Patch 5 :'', desc_line ''old'', ''Patch 6 :'', ''Patch 5 :'', desc_line ''new'']) 5
     = Some (plain_patch ''new'')
   \<and> (\<exists>p1. read_lspatches [''5;old'', ''6;x''] ''f'' = ([], Inr p1)
         \<and> map_of [(5, plain_patch ''new''), (6, plain_patch ''x'')] =
             map_of p1 ++ map_of [(5, plain_patch ''new'')])
   \<and> distinct (dict_keys [(5 :: int, plain_patch ''new''), (6, plain_patch ''x'')])"
proof -
  have h1: "patch_match ''Patch 5 :'' \<noteq> None" by code_simp
  have h2: "read_lsinventory [''Patch 5 :'', desc_line ''new''] = [(5, plain_patch ''new'')]"
    by code_simp
  have h3: "read_lspatches [''5;old'', ''6;x'', ''5;new''] ''f'' =
     ([], Inr [(5, plain_patch ''new''), (6, plain_patch ''x'')])"
    by code_simp
  have h4: "read_lspatches [''5;new''] ''f'' = ([], Inr [(5, plain_patch ''new'')])"
    by code_simp
  note t = identifiers_unique_last_wins
    [of "[''5;old'', ''6;x'', ''5;new'']" "''f''" "[]"
        "[(5, plain_patch ''new''), (6, plain_patch ''x'')]"
        "[''5;old'', ''6;x'']" "[''5;new'']" "''Patch 5 :''"
        "[''Patch 5 :'', desc_line ''old'', ''Patch 6 :'']" "[desc_line ''new'']"]
  from t h1 h2 have a: "map_of (read_lsinventory
       [''Patch 5 :'', desc_line ''old'', ''Patch 6 :'', ''Patch 5 :'', desc_line ''new'']) 5
     = Some (plain_patch ''new'')"
    by simp
  from t h3 h4 have b: "\<exists>p1. read_lspatches [''5;old'', ''6;x''] ''f'' = ([], Inr p1)
         \<and> map_of [(5, plain_patch ''new''), (6, plain_patch ''x'')] =
             map_of p1 ++ map_of [(5, plain_patch ''new'')]"
    by simp
  from t h3 have d: "distinct (dict_keys [(5::int, plain_patch ''new''), (6, plain_patch ''x'')])"
    by blast
  from a b d show ?thesis by blast
qed

section \<open>Blank lines and extra lines\<close>






lemma py_join_empty_sep: "py_join [] xs = concat xs"
  by (induction "[] :: string" xs rule: py_join.induct) simp_all

lemma length_py_join:
  "length (py_join sep xs) = sum_list (map length xs) + (length xs - 1) * length sep"
  by (induction sep xs rule: py_join.induct) simp_all

lemma py_join_differs:
  "2 \<le> length xs \<Longrightarrow> py_join [nl] xs \<noteq> py_join [] xs"
proof
  assume l: "2 \<le> length xs" and "py_join [nl] xs = py_join [] xs"
  then have "length (py_join [nl] xs) = length (py_join [] xs)" by simp
  then show False using l by (simp add: length_py_join)
qed








text \<open>
  C5. Let a record be open after some lines of a full inventory. If the text ends there,
  the record is stored with its extra lines concatenated; if a header line follows, it is
  stored with its extra lines joined by line breaks. The two texts differ as soon as
  two extra lines were captured.
\<close>

theorem join_asymmetry:
  "s = foldl lsinventory_step lsinv_init pre \<and> current_id s = Some k \<and> k \<noteq> 0 \<longrightarrow>
     read_lsinventory pre =
       dict_set (patches s) k
         \<lparr>description = current_desc s, extra_lines = concat (extra_buf s)\<rparr>
     \<and> (patch_match h \<noteq> None \<longrightarrow>
          patches (foldl lsinventory_step lsinv_init (pre @ [h])) =
            dict_set (patches s) k
              \<lparr>description = current_desc s, extra_lines = py_join [nl] (extra_buf s)\<rparr>)
     \<and> (2 \<le> length (extra_buf s) \<longrightarrow> py_join [nl] (extra_buf s) \<noteq> concat (extra_buf s))"
proof (intro impI, elim conjE)
  assume s: "s = foldl lsinventory_step lsinv_init pre" and k: "current_id s = Some k" "k \<noteq> 0"
  have a: "read_lsinventory pre =
       dict_set (patches s) k
         \<lparr>description = current_desc s, extra_lines = concat (extra_buf s)\<rparr>"
    using k by (simp add: read_lsinventory_def s [symmetric] lsinventory_finish_def
                  py_join_empty_sep)
  have b: "patch_match h \<noteq> None \<longrightarrow>
          patches (foldl lsinventory_step lsinv_init (pre @ [h])) =
            dict_set (patches s) k
              \<lparr>description = current_desc s, extra_lines = py_join [nl] (extra_buf s)\<rparr>"
    using k by (auto simp: s [symmetric] lsinventory_step_def)
  have c: "2 \<le> length (extra_buf s) \<longrightarrow> py_join [nl] (extra_buf s) \<noteq> concat (extra_buf s)"
    using py_join_differs [of "extra_buf s"] by (simp add: py_join_empty_sep)
  from a b c show "read_lsinventory pre =
       dict_set (patches s) k
         \<lparr>description = current_desc s, extra_lines = concat (extra_buf s)\<rparr>
     \<and> (patch_match h \<noteq> None \<longrightarrow>
          patches (foldl lsinventory_step lsinv_init (pre @ [h])) =
            dict_set (patches s) k
              \<lparr>description = current_desc s, extra_lines = py_join [nl] (extra_buf s)\<rparr>)
     \<and> (2 \<le> length (extra_buf s) \<longrightarrow> py_join [nl] (extra_buf s) \<noteq> concat (extra_buf s))"
    by blast
qed

text \<open>
  Two detail lines: \<open>  a  b\<close> at the end of the input, two lines before a header.
\<close>

theorem join_asymmetry_witness:
  "read_lsinventory [''Patch 101 :'', desc_line ''Security Patch'', ''  a'', ''  b''] =
     [(101, \<lparr>description = Some ''Security Patch'', extra_lines = ''  a  b''\<rparr>)]
   \<and> patches (foldl lsinventory_step lsinv_init
        [''Patch 101 :'', desc_line ''Security Patch'', ''  a'', ''  b'', ''Patch 202 :'']) =
     [(101, \<lparr>description = Some ''Security Patch'', extra_lines = ''  a'' @ [nl] @ ''  b''\<rparr>)]"
proof -
  let ?pre = "[''Patch 101 :'', desc_line ''Security Patch'', ''  a'', ''  b'']"
  let ?s = "foldl lsinventory_step lsinv_init ?pre"
  have h1: "current_id ?s = Some 101" "patches ?s = []"
     "current_desc ?s = Some ''Security Patch''" "extra_buf ?s = [''  a'', ''  b'']"
    by code_simp+
  have h2: "patch_match ''Patch 202 :'' \<noteq> None" by code_simp
  have h3: "(101::int) \<noteq> 0" by simp
  from join_asymmetry [of ?s ?pre 101 "''Patch 202 :''"] h1(1) h2 h3
  have "read_lsinventory ?pre =
       dict_set (patches ?s) 101
         \<lparr>description = current_desc ?s, extra_lines = concat (extra_buf ?s)\<rparr>"
    and "patches (foldl lsinventory_step lsinv_init (?pre @ [''Patch 202 :''])) =
            dict_set (patches ?s) 101
              \<lparr>description = current_desc ?s, extra_lines = py_join [nl] (extra_buf ?s)\<rparr>"
    by blast+
  then show ?thesis unfolding h1 by simp
qed

section \<open>The comparison report\<close>

lemma takeWhile_until: "x \<notin> set xs \<Longrightarrow> takeWhile (\<lambda>m. m \<noteq> x) (xs @ x # ys) = xs"
  by (induction xs) auto

lemma dropWhile_until: "x \<notin> set xs \<Longrightarrow> dropWhile (\<lambda>m. m \<noteq> x) (xs @ x # ys) = x # ys"
  by (induction xs) auto

lemma dropWhile_none: "x \<notin> set xs \<Longrightarrow> dropWhile (\<lambda>m. m \<noteq> x) xs = []"
  by (induction xs) auto

lemma patch_ids_append: "patch_ids (xs @ ys) = patch_ids xs @ patch_ids ys"
  by (simp add: patch_ids_def)

lemma patch_ids_plain: "\<forall>m\<in>set out. plain_msg m \<Longrightarrow> patch_ids out = []"
  by (induction out) (auto simp: plain_msg_def patch_ids_def)

lemma set_patches_dif:
  "set (patches_dif p1 p2) = set (dict_keys p1) - set (dict_keys p2)"
  by (simp add: patches_dif_def)

lemma report_patches_ok:
  assumes "\<And>e. plain_msg (extra e)"
  shows "\<forall>num\<in>set nums. num \<in> set (dict_keys ps) \<Longrightarrow>
     \<exists>out. report_patches extra short ps nums = (out, Inr ())
        \<and> patch_ids out = nums
        \<and> OnlyFirstHeader \<notin> set out \<and> OnlySecondHeader \<notin> set out"
proof (induction nums)
  case Nil
  show ?case by (simp add: say_def patch_ids_def)
next
  case (Cons num r)
  from Cons.prems have "map_of ps num \<noteq> None" by (simp add: dict_keys_iff)
  then obtain pd where pd: "map_of ps num = Some pd" by auto
  from Cons obtain out where out: "report_patches extra short ps r = (out, Inr ())"
      "patch_ids out = r" "OnlyFirstHeader \<notin> set out" "OnlySecondHeader \<notin> set out"
    by auto
  let ?x = "if \<not> short \<and> extra_lines pd \<noteq> [] then [extra (extra_lines pd)] else []"
  have x: "patch_ids ?x = []" "OnlyFirstHeader \<notin> set ?x" "OnlySecondHeader \<notin> set ?x"
    using assms [of "extra_lines pd"] by (auto simp: plain_msg_def patch_ids_def)
  have "report_patches extra short ps (num # r) =
        (PatchLine num (description pd) # ?x @ out, Inr ())"
    by (simp add: pd out bind_io_def say_def)
  moreover have "patch_ids (PatchLine num (description pd) # ?x @ out) = num # r"
    using x(1) out(2) patch_ids_append [of "[PatchLine num (description pd)]" "?x @ out"]
      patch_ids_append [of ?x out]
    by (simp add: patch_ids_def)
  ultimately show ?case using x(2,3) out(3,4) by auto
qed

lemma section_ok:
  assumes "\<And>e. plain_msg (extra e)" and "plain_msg none_line"
  shows "\<exists>out. (if patches_dif p1 p2 = [] then say [none_line]
               else report_patches extra short p1 (patches_dif p1 p2)) = (out, Inr ())
        \<and> patch_ids out = patches_dif p1 p2
        \<and> OnlyFirstHeader \<notin> set out \<and> OnlySecondHeader \<notin> set out"
proof (cases "patches_dif p1 p2 = []")
  case True
  then show ?thesis using assms(2) by (auto simp: say_def plain_msg_def)
next
  case False
  have "\<forall>num\<in>set (patches_dif p1 p2). num \<in> set (dict_keys p1)"
    by (simp add: set_patches_dif)
  from report_patches_ok [of extra, OF assms(1) this, of short] False
  show ?thesis by simp
qed

lemma check_release_update_plain:
  "\<forall>m\<in>set (fst (check_release_update p1 p2)). plain_msg m"
  by (auto simp: check_release_update_def say_def plain_msg_def patch_ids_def
           split: sum.splits)

lemma check_release_update_raises_sym:
  "(\<exists>x. snd (check_release_update p1 p2) = Inl x) \<longleftrightarrow>
   (\<exists>x. snd (check_release_update p2 p1) = Inl x)"
  by (auto simp: check_release_update_def say_def split: sum.splits)

lemma reported_raise:
  assumes "snd (check_release_update p1 p2) = Inl x"
  shows "reported_first (fst (compare_patches short a b p1 p2)) = []
       \<and> reported_second (fst (compare_patches short a b p1 p2)) = []"
proof -
  obtain o1 where o1: "check_release_update p1 p2 = (o1, Inl x)"
    using assms by (cases "check_release_update p1 p2") auto
  have pl: "\<forall>m\<in>set o1. plain_msg m" using check_release_update_plain [of p1 p2] o1 by simp
  let ?out = "[SummaryHeader, FirstSourceCount (source_label a) (length p1),
       SecondSourceCount (source_label b) (length p2)] @ o1"
  have out: "fst (compare_patches short a b p1 p2) = ?out"
    by (simp add: compare_patches_def Let_def bind_io_def say_def o1)
  have n: "OnlyFirstHeader \<notin> set ?out" "OnlySecondHeader \<notin> set ?out"
    using pl by (auto simp: plain_msg_def)
  have dw1: "dropWhile (\<lambda>m. m \<noteq> OnlyFirstHeader) ?out = []"
    using n(1) by (rule dropWhile_none)
  have dw2: "dropWhile (\<lambda>m. m \<noteq> OnlySecondHeader) ?out = []"
    using n(2) by (rule dropWhile_none)
  show ?thesis
    unfolding reported_first_def reported_second_def out dw1 dw2 by (simp add: patch_ids_def)
qed

lemma reported_ok:
  assumes "snd (check_release_update p1 p2) = Inr u"
  shows "reported_first (fst (compare_patches short a b p1 p2)) = patches_dif p1 p2
       \<and> reported_second (fst (compare_patches short a b p1 p2)) = patches_dif p2 p1"
proof -
  obtain o1 where o1: "check_release_update p1 p2 = (o1, Inr ())"
    using assms by (cases "check_release_update p1 p2") auto
  have pl: "\<forall>m\<in>set o1. plain_msg m" using check_release_update_plain [of p1 p2] o1 by simp
  have e: "plain_msg (ExtraLinesFirst e)" "plain_msg (ExtraLinesSecond e)"
       "plain_msg (NoPatchesOnlyFirst l)" "plain_msg (NoPatchesOnlySecond l)" for e l
    by (simp_all add: plain_msg_def patch_ids_def)
  obtain s1 where s1:
     "(if patches_dif p1 p2 = [] then say [NoPatchesOnlyFirst (source_label a)]
       else report_patches ExtraLinesFirst short p1 (patches_dif p1 p2)) = (s1, Inr ())"
     "patch_ids s1 = patches_dif p1 p2"
     "OnlyFirstHeader \<notin> set s1" "OnlySecondHeader \<notin> set s1"
    using section_ok [of ExtraLinesFirst "NoPatchesOnlyFirst (source_label a)" p1 p2 short]
      e by blast
  obtain s2 where s2:
     "(if patches_dif p2 p1 = [] then say [NoPatchesOnlySecond (source_label b)]
       else report_patches ExtraLinesSecond short p2 (patches_dif p2 p1)) = (s2, Inr ())"
     "patch_ids s2 = patches_dif p2 p1"
     "OnlyFirstHeader \<notin> set s2" "OnlySecondHeader \<notin> set s2"
    using section_ok [of ExtraLinesSecond "NoPatchesOnlySecond (source_label b)" p2 p1 short]
      e by blast
  let ?pre = "[SummaryHeader, FirstSourceCount (source_label a) (length p1),
       SecondSourceCount (source_label b) (length p2)] @ o1"
  have out: "fst (compare_patches short a b p1 p2) =
      ?pre @ OnlyFirstHeader # s1 @ OnlySecondHeader # s2"
    by (simp add: compare_patches_def Let_def bind_io_def say_def o1 s1(1) s2(1)
             del: report_patches.simps)
  have p1: "OnlyFirstHeader \<notin> set ?pre" and p2: "OnlySecondHeader \<notin> set (?pre @ OnlyFirstHeader # s1)"
    using pl s1(4) by (auto simp: plain_msg_def)
  have d1: "dropWhile (\<lambda>m. m \<noteq> OnlyFirstHeader) (?pre @ OnlyFirstHeader # s1 @ OnlySecondHeader # s2)
            = OnlyFirstHeader # s1 @ OnlySecondHeader # s2"
    using p1 by (rule dropWhile_until)
  have t1: "takeWhile (\<lambda>m. m \<noteq> OnlySecondHeader) (OnlyFirstHeader # s1 @ OnlySecondHeader # s2)
            = OnlyFirstHeader # s1"
    using s1(4) takeWhile_until [of OnlySecondHeader "OnlyFirstHeader # s1" s2] by simp
  have d2: "dropWhile (\<lambda>m. m \<noteq> OnlySecondHeader) (?pre @ OnlyFirstHeader # s1 @ OnlySecondHeader # s2)
            = OnlySecondHeader # s2"
    using dropWhile_until [OF p2, of s2] by simp
  have a1: "reported_first (fst (compare_patches short a b p1 p2)) = patches_dif p1 p2"
    unfolding reported_first_def out d1 t1 using s1(2) patch_ids_append [of "[OnlyFirstHeader]" s1]
    by (simp add: patch_ids_def)
  have a2: "reported_second (fst (compare_patches short a b p1 p2)) = patches_dif p2 p1"
    unfolding reported_second_def out d2 using s2(2) patch_ids_append [of "[OnlySecondHeader]" s2]
    by (simp add: patch_ids_def)
  from a1 a2 show ?thesis by simp
qed

text \<open>
  C8. The identifiers listed under "only in the first source" when comparing A with B are
  those listed under "only in the second source" when comparing B with A, as lists and so
  as sets, whatever the source labels and the verbosity. When the release-update check
  of the report returns, they are the keys of A that are not keys of B; when it raises,
  it raises in both comparisons and neither report lists an identifier.
\<close>

theorem comparator_symmetry:
  "reported_first (fst (compare_patches short a b A B)) =
     reported_second (fst (compare_patches short' b' a' B A))
   \<and> set (reported_first (fst (compare_patches short a b A B))) =
     set (reported_second (fst (compare_patches short' b' a' B A)))
   \<and> (snd (check_release_update A B) = Inr () \<longrightarrow>
        set (reported_first (fst (compare_patches short a b A B))) =
          set (dict_keys A) - set (dict_keys B))"
proof -
  have eq: "reported_first (fst (compare_patches short a b A B)) =
     reported_second (fst (compare_patches short' b' a' B A))"
  proof (cases "snd (check_release_update A B)")
    case (Inl x)
    then obtain y where "snd (check_release_update B A) = Inl y"
      using check_release_update_raises_sym [of A B] by blast
    from reported_raise [OF Inl] reported_raise [OF this] show ?thesis by simp
  next
    case (Inr u)
    then have "\<not> (\<exists>x. snd (check_release_update B A) = Inl x)"
      using check_release_update_raises_sym [of A B] by simp
    then obtain v where "snd (check_release_update B A) = Inr v"
      by (cases "snd (check_release_update B A)") auto
    from reported_ok [OF Inr] reported_ok [OF this] show ?thesis by simp
  qed
  moreover have "snd (check_release_update A B) = Inr () \<longrightarrow>
        set (reported_first (fst (compare_patches short a b A B))) =
          set (dict_keys A) - set (dict_keys B)"
    using reported_ok [of A B "()"] by (simp add: set_patches_dif)
  ultimately show ?thesis by simp
qed

text \<open>
  Patch Sets with keys 1, 3 and 3, 4.
\<close>

theorem comparator_symmetry_witness:
  "reported_first (fst (compare_patches False (file_source ''a'') (file_source ''b'')
       [(1, plain_patch ''p''), (3, plain_patch ''q'')]
       [(3, plain_patch ''q''), (4, plain_patch ''r'')])) =
   reported_second (fst (compare_patches False (file_source ''b'') (file_source ''a'')
       [(3, plain_patch ''q''), (4, plain_patch ''r'')]
       [(1, plain_patch ''p''), (3, plain_patch ''q'')]))
   \<and> set (reported_first (fst (compare_patches False (file_source ''a'') (file_source ''b'')
       [(1, plain_patch ''p''), (3, plain_patch ''q'')]
       [(3, plain_patch ''q''), (4, plain_patch ''r'')]))) = {1}"
proof -
  let ?A = "[(1 :: int, plain_patch ''p''), (3, plain_patch ''q'')]"
  let ?B = "[(3 :: int, plain_patch ''q''), (4, plain_patch ''r'')]"
  have h1: "snd (check_release_update ?A ?B) = Inr ()" by code_simp
  have h2: "set (dict_keys ?A) - set (dict_keys ?B) = {1}" by (auto simp: dict_keys_def)
  from comparator_symmetry [of False "file_source ''a''" "file_source ''b''" ?A ?B False
      "file_source ''b''" "file_source ''a''"] h1
  show ?thesis unfolding h2 [symmetric] by blast
qed

section \<open>Release updates across two sources\<close>

lemma ru_scan_none_iff: "ru_scan ps = Inr None \<longleftrightarrow> no_release_update ps"
  by (induction ps rule: ru_scan.induct)
     (auto simp: no_release_update_def split: option.splits)

lemma ru_scan_found:
  "ru_scan ps = Inr (Some a) \<Longrightarrow>
   startswith a ''Database Release Update'' \<and> Some a \<in> set (map (\<lambda>kv. description (snd kv)) ps)"
  by (induction ps rule: ru_scan.induct) (auto split: option.splits if_splits)

lemma startswith_nonempty: "startswith a ''Database Release Update'' \<Longrightarrow> a \<noteq> []"
  by (auto simp: startswith_def)

lemma ru_scan_truthy: "ru_scan ps = Inr (Some a) \<Longrightarrow> truthy_str (Some a)"
  using ru_scan_found [of ps a] startswith_nonempty [of a] by (simp add: truthy_str_def)

text \<open>
  C2, as amended. Let both scans for a release update return. If both find one and the
  descriptions differ, the warning and the two descriptions are printed. If the first
  finds one and the second finds none or the same, the first description is printed
  without a warning. If neither finds one, nothing is printed. A scan that finds a
  description finds one of the Patch Set that starts with the marker; a scan finds none
  exactly when every record has a description and none starts with the marker.
\<close>

theorem release_update_cross_check:
  "(ru_scan first = Inr (Some a) \<and> ru_scan second = Inr (Some b) \<and> a \<noteq> b \<longrightarrow>
      check_release_update first second =
        ([WarnReleaseUpdatesDiffer, FirstSourceRU a, SecondSourceRU b], Inr ()))
   \<and> (ru_scan first = Inr (Some a)
        \<and> (ru_scan second = Inr None \<or> ru_scan second = Inr (Some a)) \<longrightarrow>
      check_release_update first second = ([PlainRU a], Inr ()))
   \<and> (ru_scan first = Inr None \<and> ru_scan second = Inr None \<longrightarrow>
      check_release_update first second = ([], Inr ()))
   \<and> (ru_scan ps = Inr (Some a) \<longrightarrow>
        startswith a ''Database Release Update''
        \<and> Some a \<in> set (map (\<lambda>kv. description (snd kv)) ps))
   \<and> (ru_scan ps = Inr None \<longleftrightarrow> no_release_update ps)"
proof -
  have w: "ru_scan first = Inr (Some a) \<and> ru_scan second = Inr (Some b) \<and> a \<noteq> b \<longrightarrow>
      check_release_update first second =
        ([WarnReleaseUpdatesDiffer, FirstSourceRU a, SecondSourceRU b], Inr ())"
    using ru_scan_truthy [of first a] ru_scan_truthy [of second b]
    by (auto simp: check_release_update_def say_def fmt_def)
  have p: "ru_scan first = Inr (Some a)
        \<and> (ru_scan second = Inr None \<or> ru_scan second = Inr (Some a)) \<longrightarrow>
      check_release_update first second = ([PlainRU a], Inr ())"
    using ru_scan_truthy [of first a]
    by (auto simp: check_release_update_def say_def fmt_def truthy_str_def)
  have n: "ru_scan first = Inr None \<and> ru_scan second = Inr None \<longrightarrow>
      check_release_update first second = ([], Inr ())"
    by (auto simp: check_release_update_def say_def truthy_str_def)
  from w p n ru_scan_found [of ps a] ru_scan_none_iff [of ps] show ?thesis by blast
qed

text \<open>
  Release updates 19.1 and 19.2, and 19.1 against an empty Patch Set.
\<close>

theorem release_update_cross_check_witness:
  "check_release_update [(1, ru_patch ''19.1'')] [(2, ru_patch ''19.2'')] =
     ([WarnReleaseUpdatesDiffer, FirstSourceRU ''Database Release Update 19.1'',
       SecondSourceRU ''Database Release Update 19.2''], Inr ())
   \<and> check_release_update [(1, ru_patch ''19.1'')] [] =
       ([PlainRU ''Database Release Update 19.1''], Inr ())"
proof -
  have h1: "ru_scan [(1, ru_patch ''19.1'')] = Inr (Some ''Database Release Update 19.1'')"
    by code_simp
  have h2: "ru_scan [(2, ru_patch ''19.2'')] = Inr (Some ''Database Release Update 19.2'')"
    by code_simp
  have h3: "ru_scan [] = Inr None"
    by simp
  have h4: "''Database Release Update 19.1'' \<noteq> ''Database Release Update 19.2''"
    by simp
  from h1 h2 h4
    release_update_cross_check [of "[(1, ru_patch ''19.1'')]" "''Database Release Update 19.1''"
      "[(2, ru_patch ''19.2'')]" "''Database Release Update 19.2''" "[]"]
  have a: "check_release_update [(1, ru_patch ''19.1'')] [(2, ru_patch ''19.2'')] =
     ([WarnReleaseUpdatesDiffer, FirstSourceRU ''Database Release Update 19.1'',
       SecondSourceRU ''Database Release Update 19.2''], Inr ())"
    by blast
  from h1 h3
    release_update_cross_check [of "[(1, ru_patch ''19.1'')]" "''Database Release Update 19.1''"
      "[]" "''x''" "[]"]
  have b: "check_release_update [(1, ru_patch ''19.1'')] [] =
       ([PlainRU ''Database Release Update 19.1''], Inr ())"
    by blast
  from a b show ?thesis by simp
qed

text \<open>
  Where the check prints nothing: neither Patch Set has a release update, and only the
  second one has.
\<close>

theorem release_update_cross_check_counterexample:
  "ru_scan [] = Inr None
   \<and> check_release_update [] [] = ([], Inr ())
   \<and> ru_scan [(1, ru_patch ''19.1'')] = Inr (Some ''Database Release Update 19.1'')
   \<and> check_release_update [] [(1, ru_patch ''19.1'')] = ([], Inr ())"
  by code_simp

text \<open>
  C3. A full inventory with a header line and no description line decodes to a record
  whose description is \<open>None\<close>; both release-update functions raise
  \<open>AttributeError\<close> on it, and so does the run that reports the release update of
  such a file.
\<close>

theorem absent_description_raises:
  "read_lsinventory [''Interim patches (1) :'', ''Patch 101 : applied''] =
     [(101, \<lparr>description = None, extra_lines = []\<rparr>)]
   \<and> print_release_update [(101, \<lparr>description = None, extra_lines = []\<rparr>)] =
       ([ReleaseUpdateHeader], Inl (Raised AttributeError))
   \<and> check_release_update [(101, \<lparr>description = None, extra_lines = []\<rparr>)] [] =
       ([], Inl (Raised AttributeError))
   \<and> prepare_patches sample_env False (file_source ''f3'') None True =
       ([ReadingLsinventoryFile ''f3'', ReleaseUpdateHeader], Inl (Raised AttributeError))"
  by code_simp

section \<open>Empty Patch Sets in the driver\<close>

text \<open>
  C1, as amended. When the text of a source decodes to no record, \<open>read_opatch_source\<close>
  prints the message that no patches were found and returns the empty Patch Set, and the
  release-update report of an empty Patch Set prints nothing. The driver then leaves
  with exit status 1: for the first source before the second is read, for the second
  source before the comparison.
\<close>

theorem empty_patch_set_stops_run:
  "(source src = ''file'' \<and> read_patches e (path src) = (out, Inr []) \<longrightarrow>
      read_opatch_source e src = (out @ [NoPatchesFile (path src)], Inr []))
   \<and> (source src = ''oracle_home'' \<and> run_opatch e src = (out, Inr []) \<longrightarrow>
      read_opatch_source e src = (out @ [NoPatchesHome (path src)], Inr []))
   \<and> print_release_update [] = ([], Inr ())
   \<and> (read_opatch_source e first = (out1, Inr []) \<longrightarrow>
      prepare_patches e short first second ru = (out1, Inl (Exit 1)))
   \<and> (read_opatch_source e first = (out1, Inr p1) \<and> p1 \<noteq> []
        \<and> (if ru then print_release_update p1 else say []) = (o1, Inr ())
        \<and> read_opatch_source e sec = (out2, Inr []) \<longrightarrow>
      prepare_patches e short first (Some sec) ru = (out1 @ o1 @ [Blank] @ out2, Inl (Exit 1)))"
proof -
  have a: "source src = ''file'' \<and> read_patches e (path src) = (out, Inr []) \<longrightarrow>
      read_opatch_source e src = (out @ [NoPatchesFile (path src)], Inr [])"
    by (simp add: read_opatch_source_def bind_io_def)
  have b: "source src = ''oracle_home'' \<and> run_opatch e src = (out, Inr []) \<longrightarrow>
      read_opatch_source e src = (out @ [NoPatchesHome (path src)], Inr [])"
    by (simp add: read_opatch_source_def bind_io_def)
  have c: "print_release_update [] = ([], Inr ())"
    by (simp add: print_release_update_def say_def)
  have d: "read_opatch_source e first = (out1, Inr []) \<longrightarrow>
      prepare_patches e short first second ru = (out1, Inl (Exit 1))"
    by (simp add: prepare_patches_def bind_io_def c say_def)
  have f: "read_opatch_source e first = (out1, Inr p1) \<and> p1 \<noteq> []
        \<and> (if ru then print_release_update p1 else say []) = (o1, Inr ())
        \<and> read_opatch_source e sec = (out2, Inr []) \<longrightarrow>
      prepare_patches e short first (Some sec) ru = (out1 @ o1 @ [Blank] @ out2, Inl (Exit 1))"
    by (auto simp: prepare_patches_def bind_io_def c say_def)
  from a b c d f show ?thesis by blast
qed

text \<open>
  A file without any patch line as the only source, and as the second source.
\<close>

theorem empty_patch_set_stops_run_witness:
  "read_opatch_source sample_env (file_source ''f1'') =
       ([ReadingLspatchesFile ''f1'', NoPatchesFile ''f1''], Inr [])
   \<and> prepare_patches sample_env True (file_source ''f1'') None True =
       ([ReadingLspatchesFile ''f1'', NoPatchesFile ''f1''], Inl (Exit 1))
   \<and> prepare_patches sample_env False (file_source ''f2'') (Some (file_source ''f1'')) False =
       ([ReadingLspatchesFile ''f2'', Blank, ReadingLspatchesFile ''f1'', NoPatchesFile ''f1''],
        Inl (Exit 1))"
proof -
  have h1: "source (file_source ''f1'') = ''file''" "path (file_source ''f1'') = ''f1''"
    by (simp_all add: file_source_def)
  have h2: "read_patches sample_env ''f1'' = ([ReadingLspatchesFile ''f1''], Inr [])"
    by code_simp
  have h3: "read_opatch_source sample_env (file_source ''f2'') =
     ([ReadingLspatchesFile ''f2''],
      Inr [(1, \<lparr>description = Some ''Database Release Update 19.1'', extra_lines = []\<rparr>),
           (5, \<lparr>description = Some ''x'', extra_lines = []\<rparr>)])"
    by code_simp
  from h1 h2
    empty_patch_set_stops_run [of "file_source ''f1''" sample_env "[ReadingLspatchesFile ''f1'']"]
  have a: "read_opatch_source sample_env (file_source ''f1'') =
       ([ReadingLspatchesFile ''f1'', NoPatchesFile ''f1''], Inr [])"
    by simp
  from a
    empty_patch_set_stops_run [of _ sample_env _ "file_source ''f1''"
      "[ReadingLspatchesFile ''f1'', NoPatchesFile ''f1'']" True None True]
  have b: "prepare_patches sample_env True (file_source ''f1'') None True =
       ([ReadingLspatchesFile ''f1'', NoPatchesFile ''f1''], Inl (Exit 1))"
    by blast
  from a h3
    empty_patch_set_stops_run [of _ sample_env _ "file_source ''f2''"
      "[ReadingLspatchesFile ''f2'']" False _ False
      "[(1, \<lparr>description = Some ''Database Release Update 19.1'', extra_lines = []\<rparr>),
           (5, \<lparr>description = Some ''x'', extra_lines = []\<rparr>)]" "[]"
      "file_source ''f1''" "[ReadingLspatchesFile ''f1'', NoPatchesFile ''f1'']"]
  have c: "prepare_patches sample_env False (file_source ''f2'') (Some (file_source ''f1'')) False =
       ([ReadingLspatchesFile ''f2'', Blank, ReadingLspatchesFile ''f1'', NoPatchesFile ''f1''],
        Inl (Exit 1))"
    by (simp add: say_def)
  from a b c show ?thesis by simp
qed

text \<open>
  The same file as the first of two sources: it decodes without error to no record,
  the message is printed, and the run ends with status 1.
\<close>

theorem empty_patch_set_stops_run_counterexample:
  "read_lspatches [''nothing here''] ''f1'' = ([], Inr [])
   \<and> read_opatch_source sample_env (file_source ''f1'') =
       ([ReadingLspatchesFile ''f1'', NoPatchesFile ''f1''], Inr [])
   \<and> prepare_patches sample_env False (file_source ''f1'') (Some (file_source ''f2'')) False =
       ([ReadingLspatchesFile ''f1'', NoPatchesFile ''f1''], Inl (Exit 1))"
  by code_simp

end
